theory Spec2Isabelle
  imports Main "HOL-Library.Word" "HOL-Library.Multiset"
begin

section \<open>JavaScript strings\<close>

text \<open>
  A JavaScript string is a sequence of 16-bit code units, so it is modelled as a list of
  16-bit words; \<open>input[i]\<close>, \<open>length\<close> and the regular expressions of the source all
  work on code units. \<open>js\<close> turns an ASCII literal into such a string.
\<close>

type_synonym unit16 = "16 word"
type_synonym jsstring = "unit16 list"

definition js :: "string \<Rightarrow> jsstring" where
  "js s = map of_char s"

definition newline :: unit16 where
  "newline = 0x0A"

text \<open>
  \<open>xs[i]\<close> on a JavaScript array is \<open>undefined\<close> out of range; \<open>at\<close> returns \<open>None\<close> there.
  \<open>orElse v d\<close> is \<open>v || d\<close> for a string or \<open>undefined\<close>: the empty string is falsy.
\<close>

definition at :: "'a list \<Rightarrow> nat \<Rightarrow> 'a option" where
  "at xs i = (if i < length xs then Some (xs ! i) else None)"

definition orElse :: "jsstring option \<Rightarrow> jsstring \<Rightarrow> jsstring" where
  "orElse v d = (case v of None \<Rightarrow> d | Some s \<Rightarrow> if s = [] then d else s)"

text \<open>\<open>Array.prototype.join\<close> with a one-unit separator.\<close>

fun join :: "unit16 \<Rightarrow> jsstring list \<Rightarrow> jsstring" where
  "join sep [] = []"
| "join sep [x] = x"
| "join sep (x # y # ys) = x @ sep # join sep (y # ys)"

text \<open>
  \<open>String.prototype.toUpperCase\<close>. The Unicode case tables are not part of the
  repository; the model folds the ASCII letters \<open>a\<close>-\<open>z\<close>, which is what the function
  does on ASCII text, and leaves every other code unit as it is. The renderer is
  defined for an arbitrary upper-casing (\<open>renderRowsWith\<close>, \<open>renderCfontsWith\<close>), and
  \<open>renderCfonts\<close> is the instance for this one. The theorems about every text either
  are stated for an arbitrary upper-casing or use of this one only that it maps the
  empty string, and no other, to the empty string; what is evaluated with it is ASCII.
\<close>

definition toUpperUnit :: "unit16 \<Rightarrow> unit16" where
  "toUpperUnit c = (if 0x61 \<le> c \<and> c \<le> 0x7A then c - 0x20 else c)"

definition toUpperCase :: "jsstring \<Rightarrow> jsstring" where
  "toUpperCase s = map toUpperUnit s"

text \<open>The character classes \<open>\d\<close> and \<open>\s\<close> of ECMAScript regular expressions.\<close>

definition isDigit :: "unit16 \<Rightarrow> bool" where
  "isDigit c = (0x30 \<le> c \<and> c \<le> 0x39)"

definition isWhiteSpace :: "unit16 \<Rightarrow> bool" where
  "isWhiteSpace c =
     (c = 0x09 \<or> c = 0x0A \<or> c = 0x0B \<or> c = 0x0C \<or> c = 0x0D \<or> c = 0x20 \<or> c = 0xA0
      \<or> c = 0x1680 \<or> (0x2000 \<le> c \<and> c \<le> 0x200A) \<or> c = 0x2028 \<or> c = 0x2029
      \<or> c = 0x202F \<or> c = 0x205F \<or> c = 0x3000 \<or> c = 0xFEFF)"

text \<open>
  A value that is thrown: by the engine (a \<open>TypeError\<close>) or by a call into a package.
\<close>

datatype error = Thrown jsstring

text \<open>
  The names of the properties of \<open>Object.prototype\<close>. A plain object inherits them: a
  lookup \<open>obj[key]\<close> with one of these names gives, when the object has no property of
  its own under that name, the inherited function (for \<open>__proto__\<close> the prototype
  object), which is truthy and has none of the properties the source reads from it.
\<close>

definition objectPrototypeKeys :: "jsstring list" where
  "objectPrototypeKeys =
     [ js ''constructor'', js ''__defineGetter__'', js ''__defineSetter__'',
       js ''hasOwnProperty'', js ''__lookupGetter__'', js ''__lookupSetter__'',
       js ''isPrototypeOf'', js ''propertyIsEnumerable'', js ''toString'', js ''valueOf'',
       js ''__proto__'', js ''toLocaleString'' ]"

section \<open>The cfonts renderer (cfonts-renderer.ts)\<close>

text \<open>
  \<open>matchColorTag s\<close> matches the regular expression \<open><\/?c\d+>\<close> at the start of
  \<open>s\<close> and returns what follows the match. Both quantifiers are greedy and neither can
  succeed after giving a unit back (the unit after an optional \<open>/\<close> must be \<open>c\<close>, the
  unit after the digits must be \<open>>\<close>), so the match is deterministic.
\<close>

definition matchColorTag :: "jsstring \<Rightarrow> jsstring option" where
  "matchColorTag s =
     (case s of
        [] \<Rightarrow> None
      | c0 # r0 \<Rightarrow>
          if c0 \<noteq> 0x3C then None
          else
            (case (case r0 of [] \<Rightarrow> r0 | c1 # r1 \<Rightarrow> if c1 = 0x2F then r1 else r0) of
               [] \<Rightarrow> None
             | c2 # r2 \<Rightarrow>
                 if c2 \<noteq> 0x63 then None
                 else if takeWhile isDigit r2 = [] then None
                 else
                   (case dropWhile isDigit r2 of
                      [] \<Rightarrow> None
                    | c3 # r3 \<Rightarrow> if c3 = 0x3E then Some r3 else None)))"

lemma dropWhile_Cons_shorter:
  "dropWhile P xs = y # ys \<Longrightarrow> length ys < length xs"
  using length_dropWhile_le [of P xs] by simp

lemma matchColorTag_shorter:
  "matchColorTag s = Some r \<Longrightarrow> length r < length s"
  unfolding matchColorTag_def
  by (auto split: list.splits if_splits dest!: dropWhile_Cons_shorter)

text \<open>
  \<open>str.replace(/<\/?c\d+>/g, '')\<close>: the string is scanned from the left, every match is
  removed and the scan goes on after it.
\<close>

function stripColorTags :: "jsstring \<Rightarrow> jsstring" where
  "stripColorTags [] = []"
| "stripColorTags (c # cs) =
     (case matchColorTag (c # cs) of
        Some rest \<Rightarrow> stripColorTags rest
      | None \<Rightarrow> c # stripColorTags cs)"
  by pat_completeness auto
termination
  by (relation "measure length") (auto dest: matchColorTag_shorter)

text \<open>
  \<open>line.replace(/\s+$/, '')\<close>: the longest run of white space that ends the string is
  removed.
\<close>

definition trimTrailing :: "jsstring \<Rightarrow> jsstring" where
  "trimTrailing line = rev (dropWhile isWhiteSpace (rev line))"

text \<open>
  The interface \<open>CfontsFont\<close>. \<open>chars\<close> is a \<open>Record<string, string[]>\<close>; the source tests
  \<open>letterspace\<close> for truthiness, so a font may come without it. \<open>CFONTS_DATA\<close> (module
  \<open>assets/cfonts-data\<close>) is a parameter: a table from font names to fonts.
\<close>

record CfontsFont =
  chars :: "jsstring \<rightharpoonup> jsstring list"
  lines :: nat
  buffer :: "jsstring list"
  letterspace :: "jsstring list option"
  letterspace_size :: nat
  colors :: nat

type_synonym CfontsData = "jsstring \<rightharpoonup> CfontsFont"

text \<open>
  One inner loop \<open>for (line = 0; line < lineCount; line++) outputLines[line] += frag(line)\<close>.
  \<open>outputLines\<close> always has \<open>lineCount\<close> elements.
\<close>

definition appendRows :: "nat \<Rightarrow> (nat \<Rightarrow> jsstring) \<Rightarrow> jsstring list \<Rightarrow> jsstring list" where
  "appendRows lineCount frag outputLines =
     map (\<lambda>line. (outputLines ! line) @ frag line) [0..<lineCount]"

text \<open>The fragment added for a character without glyph (source lines 44-47).\<close>

definition spacingFragment :: "CfontsFont \<Rightarrow> nat \<Rightarrow> jsstring" where
  "spacingFragment font line =
     (case letterspace font of
        Some ls \<Rightarrow> stripColorTags (orElse (at ls line) (js ''  ''))
      | None \<Rightarrow> js ''  '')"

text \<open>The fragment of a glyph (source lines 51-54).\<close>

definition glyphFragment :: "jsstring list \<Rightarrow> nat \<Rightarrow> jsstring" where
  "glyphFragment charData line = stripColorTags (orElse (at charData line) [])"

text \<open>The letter spacing added after a glyph (source lines 58-60).\<close>

definition letterGap :: "jsstring list \<Rightarrow> nat \<Rightarrow> jsstring" where
  "letterGap ls line = stripColorTags (orElse (at ls line) [])"

text \<open>
  The loop over the characters of \<open>input\<close> (source lines 38-62), by recursion on the
  characters that remain: \<open>charIdx < input.length - 1\<close> holds when \<open>rest\<close> is not empty.
\<close>

fun renderLoop :: "CfontsFont \<Rightarrow> jsstring list \<Rightarrow> jsstring \<Rightarrow> jsstring list" where
  "renderLoop font outputLines [] = outputLines"
| "renderLoop font outputLines (ch # rest) =
     (case chars font [ch] of
        None \<Rightarrow>
          renderLoop font (appendRows (lines font) (spacingFragment font) outputLines) rest
      | Some charData \<Rightarrow>
          (let out1 = appendRows (lines font) (glyphFragment charData) outputLines;
               out2 = (case letterspace font of
                         Some ls \<Rightarrow>
                           if rest \<noteq> [] then appendRows (lines font) (letterGap ls) out1
                           else out1
                       | None \<Rightarrow> out1)
           in renderLoop font out2 rest))"

text \<open>
  The row accumulators at the end of the loop. \<open>renderRowsWith\<close> takes the built-in
  \<open>String.prototype.toUpperCase\<close> as its parameter \<open>upper\<close>, so that what is proved of it
  holds for whatever the built-in does; \<open>renderRows\<close> is its instance at the ASCII fold
  \<open>toUpperCase\<close> above.
\<close>

definition renderRowsWith :: "(jsstring \<Rightarrow> jsstring) \<Rightarrow> CfontsFont \<Rightarrow> jsstring \<Rightarrow> jsstring list" where
  "renderRowsWith upper font text = renderLoop font (replicate (lines font) []) (upper text)"

definition renderRows :: "CfontsFont \<Rightarrow> jsstring \<Rightarrow> jsstring list" where
  "renderRows font text = renderRowsWith toUpperCase font text"

text \<open>Source line 65: every row trimmed, the rows joined by line breaks.\<close>

definition joinTrimmed :: "jsstring list \<Rightarrow> jsstring" where
  "joinTrimmed outputLines = join newline (map trimTrailing outputLines)"

text \<open>
  \<open>renderCfonts\<close>, again with the upper-casing as a parameter. \<open>CFONTS_DATA\<close> is a plain
  object, and \<open>CFONTS_DATA[fontName]\<close> has three outcomes. A font of the data is rendered.
  A name that is neither a font nor inherited gives \<open>undefined\<close>, and the function returns
  \<open>null\<close>. A name inherited from \<open>Object.prototype\<close> gives a truthy value that passes
  \<open>if (!font)\<close>; its \<open>chars\<close>, \<open>lines\<close> and \<open>letterspace\<close> are \<open>undefined\<close>, so there are no
  row accumulators, and the first \<open>chars[ch]\<close> of the loop throws a \<open>TypeError\<close>; when the
  input is empty the loop does not run and the empty result is turned into \<open>null\<close>.
  The result is \<open>Inl\<close> for an exception and \<open>Inr\<close> for the returned string or \<open>null\<close>.
\<close>

definition renderCfontsWith ::
  "(jsstring \<Rightarrow> jsstring) \<Rightarrow> CfontsData \<Rightarrow> jsstring \<Rightarrow> jsstring \<Rightarrow> error + jsstring option" where
  "renderCfontsWith upper CFONTS_DATA text fontName =
     (case CFONTS_DATA fontName of
        Some font \<Rightarrow>
          (let result = joinTrimmed (renderRowsWith upper font text)
           in Inr (if result = [] then None else Some result))
      | None \<Rightarrow>
          if fontName \<in> set objectPrototypeKeys then
            (if upper text = [] then Inr None else Inl (Thrown (js ''TypeError'')))
          else Inr None)"

definition renderCfonts :: "CfontsData \<Rightarrow> jsstring \<Rightarrow> jsstring \<Rightarrow> error + jsstring option" where
  "renderCfonts CFONTS_DATA text fontName = renderCfontsWith toUpperCase CFONTS_DATA text fontName"

text \<open>
  The font of the specification's scenario: two rows, a glyph for \<open>A\<close> whose first row
  is a slash and a backslash (code units 0x2F, 0x5C) and whose second row has two spaces
  between them, and a letter spacing of two spaces per row.
\<close>

definition scenarioFont :: CfontsFont where
  "scenarioFont =
     \<lparr> chars = [js ''A'' \<mapsto> [[0x2F, 0x5C], [0x2F, 0x20, 0x20, 0x5C]]],
       lines = 2,
       buffer = [[], []],
       letterspace = Some [js ''  '', js ''  ''],
       letterspace_size = 2,
       colors = 1 \<rparr>"

definition scenarioData :: CfontsData where
  "scenarioData = [js ''scenario'' \<mapsto> scenarioFont]"

section \<open>The bitmap renderer (bitmap-renderer.ts)\<close>

text \<open>
  \<open>BITMAP_STYLES\<close>. The display characters outside ASCII are written by their code unit:
  U+2588 full block, U+25CF black circle, U+00B7 middle dot, U+2605 black star,
  U+28FF and U+2800 braille patterns, U+2591 light shade, U+256C box drawing.
\<close>

record BitmapStyle =
  name :: jsstring
  displayName :: jsstring
  onChar :: jsstring
  offChar :: jsstring

definition BITMAP_STYLES :: "BitmapStyle list" where
  "BITMAP_STYLES =
     [ \<lparr> name = js ''bitmap-block'', displayName = js ''Bitmap Block'',
         onChar = [0x2588], offChar = js '' '' \<rparr>,
       \<lparr> name = js ''bitmap-hash'', displayName = js ''Bitmap Hash'',
         onChar = js ''#'', offChar = js '' '' \<rparr>,
       \<lparr> name = js ''bitmap-dot'', displayName = js ''Bitmap Dot'',
         onChar = [0x25CF], offChar = [0x00B7] \<rparr>,
       \<lparr> name = js ''bitmap-star'', displayName = js ''Bitmap Star'',
         onChar = [0x2605], offChar = [0x00B7] \<rparr>,
       \<lparr> name = js ''bitmap-at'', displayName = js ''Bitmap @'',
         onChar = js ''@'', offChar = js '' '' \<rparr>,
       \<lparr> name = js ''bitmap-slash'', displayName = js ''Bitmap Slash'',
         onChar = js ''/'', offChar = js '' '' \<rparr>,
       \<lparr> name = js ''bitmap-zero-one'', displayName = js ''Bitmap Binary'',
         onChar = js ''1'', offChar = js ''0'' \<rparr>,
       \<lparr> name = js ''bitmap-braille'', displayName = js ''Bitmap Braille'',
         onChar = [0x28FF], offChar = [0x2800] \<rparr>,
       \<lparr> name = js ''bitmap-shade'', displayName = js ''Bitmap Shade'',
         onChar = [0x2591], offChar = js '' '' \<rparr>,
       \<lparr> name = js ''bitmap-cross'', displayName = js ''Bitmap Cross'',
         onChar = [0x256C], offChar = js '' '' \<rparr> ]"

text \<open>
  The \<open>bitmapit\<close> package as the declaration \<open>bitmapit.d.ts\<close> gives it: the default font
  (its entries in the order of \<open>Object.entries\<close>), the constructor with width, height and
  spacing, and three methods, each of which may throw. \<open>defineCharacter\<close> changes the
  generator and so returns the new one; \<open>generateText\<close> may return \<open>null\<close> or \<open>undefined\<close>
  (the source tests for it), which is \<open>None\<close>.
\<close>

type_synonym bitmap = "bool list list"

record 'g Bitmapit =
  defaultFont :: "(jsstring \<times> bitmap) list"
  newGenerator :: "nat \<Rightarrow> nat \<Rightarrow> nat \<Rightarrow> error + 'g"
  defineCharacter :: "'g \<Rightarrow> jsstring \<Rightarrow> bitmap \<Rightarrow> error + 'g"
  generateText :: "'g \<Rightarrow> jsstring \<Rightarrow> error + bitmap option"
  toAscii :: "'g \<Rightarrow> bitmap \<Rightarrow> jsstring \<Rightarrow> jsstring \<Rightarrow> error + jsstring"

text \<open>
  The loop of \<open>getGenerator\<close> over the default font. The generator was assigned to the
  module variable before the loop, so when a \<open>defineCharacter\<close> throws, the variable keeps
  the generator with the characters defined so far.
\<close>

fun defineAll :: "'g Bitmapit \<Rightarrow> 'g \<Rightarrow> (jsstring \<times> bitmap) list \<Rightarrow> 'g \<times> error option" where
  "defineAll lib gen [] = (gen, None)"
| "defineAll lib gen ((char, pattern) # rest) =
     (case defineCharacter lib gen char pattern of
        Inl e \<Rightarrow> (gen, Some e)
      | Inr gen' \<Rightarrow> defineAll lib gen' rest)"

text \<open>
  \<open>getGenerator\<close>: the module variable \<open>generator\<close> (\<open>None\<close> is \<open>null\<close>) is passed in and
  returned with the result.
\<close>

definition getGenerator :: "'g Bitmapit \<Rightarrow> 'g option \<Rightarrow> (error + 'g) \<times> 'g option" where
  "getGenerator lib generator =
     (case generator of
        Some gen \<Rightarrow> (Inr gen, Some gen)
      | None \<Rightarrow>
          (case newGenerator lib 8 8 1 of
             Inl e \<Rightarrow> (Inl e, None)
           | Inr gen0 \<Rightarrow>
               (case defineAll lib gen0 (defaultFont lib) of
                  (gen, Some e) \<Rightarrow> (Inl e, Some gen)
                | (gen, None) \<Rightarrow> (Inr gen, Some gen))))"

text \<open>The \<open>try\<close> block of \<open>renderBitmap\<close>: \<open>Inl\<close> is an exception that leaves the block.\<close>

definition renderBitmapTry ::
  "'g Bitmapit \<Rightarrow> 'g option \<Rightarrow> jsstring \<Rightarrow> BitmapStyle \<Rightarrow> (error + jsstring option) \<times> 'g option" where
  "renderBitmapTry lib generator text style =
     (case getGenerator lib generator of
        (Inl e, generator') \<Rightarrow> (Inl e, generator')
      | (Inr gen, generator') \<Rightarrow>
          (case generateText lib gen text of
             Inl e \<Rightarrow> (Inl e, generator')
           | Inr None \<Rightarrow> (Inr None, generator')
           | Inr (Some bitmap) \<Rightarrow>
               if length bitmap = 0 then (Inr None, generator')
               else
                 (case toAscii lib gen bitmap (onChar style) (offChar style) of
                    Inl e \<Rightarrow> (Inl e, generator')
                  | Inr result \<Rightarrow>
                      (Inr (if result = [] then None else Some result), generator'))))"

text \<open>\<open>renderBitmap\<close>: the style is looked up by name, and \<open>catch\<close> turns an exception into \<open>null\<close>.\<close>

definition renderBitmap ::
  "'g Bitmapit \<Rightarrow> 'g option \<Rightarrow> jsstring \<Rightarrow> jsstring \<Rightarrow> jsstring option \<times> 'g option" where
  "renderBitmap lib generator text styleName =
     (case find (\<lambda>s. name s = styleName) BITMAP_STYLES of
        None \<Rightarrow> (None, generator)
      | Some style \<Rightarrow>
          (case renderBitmapTry lib generator text style of
             (Inl e, generator') \<Rightarrow> (None, generator')
           | (Inr result, generator') \<Rightarrow> (result, generator')))"

subsection \<open>The generator of the bitmapit package, from the specification\<close>

text \<open>
  Modelled from the spec: the class \<open>BitmapFontGenerator\<close> of the \<open>bitmapit\<close> package, of
  which the repository has the declaration only. A generator holds its dimensions and the
  patterns registered by \<open>defineCharacter\<close>.
\<close>

record SpecGenerator =
  width :: nat
  height :: nat
  spacing :: nat
  patterns :: "jsstring \<rightharpoonup> bitmap"

text \<open>
  Modelled from the spec: \<open>generateText\<close>, which "arranges per-character pixel matrices
  horizontally with fixed inter-character spacing (1 column) to produce one combined 2D
  boolean matrix"; the matrix is empty when "no characters matched". Characters without
  a pattern are left out.
\<close>

fun joinCells :: "bool list \<Rightarrow> bool list list \<Rightarrow> bool list" where
  "joinCells gap [] = []"
| "joinCells gap [x] = x"
| "joinCells gap (x # y # ys) = x @ gap @ joinCells gap (y # ys)"

definition specGenerateText :: "SpecGenerator \<Rightarrow> jsstring \<Rightarrow> bitmap" where
  "specGenerateText gen text =
     (let matched = List.map_filter (\<lambda>ch. patterns gen [ch]) text
      in if matched = [] then []
         else map (\<lambda>y. joinCells (replicate (spacing gen) False)
                          (map (\<lambda>m. case at m y of Some row \<Rightarrow> row | None \<Rightarrow> []) matched))
                  [0..<height gen])"

text \<open>
  Modelled from the spec: \<open>toAscii\<close>, which "converts the boolean matrix to text by
  substituting the style's onChar for true cells and offChar for false cells, one output
  row per matrix row"; the rows are separated by line breaks.
\<close>

definition specToAscii :: "bitmap \<Rightarrow> jsstring \<Rightarrow> jsstring \<Rightarrow> jsstring" where
  "specToAscii bitmap on off =
     join newline (map (\<lambda>row. concat (map (\<lambda>cell. if cell then on else off) row)) bitmap)"

text \<open>Modelled from the spec: the package with a given default font; no call throws.\<close>

definition specBitmapit :: "(jsstring \<times> bitmap) list \<Rightarrow> SpecGenerator Bitmapit" where
  "specBitmapit font =
     \<lparr> defaultFont = font,
       newGenerator = (\<lambda>w h s. Inr \<lparr> width = w, height = h, spacing = s, patterns = Map.empty \<rparr>),
       defineCharacter = (\<lambda>gen char pattern. Inr (gen\<lparr> patterns := (patterns gen)(char \<mapsto> pattern) \<rparr>)),
       generateText = (\<lambda>gen text. Inr (Some (specGenerateText gen text))),
       toAscii = (\<lambda>gen bitmap on off. Inr (specToAscii bitmap on off)) \<rparr>"

text \<open>
  Replacing, in a rendered string, the display characters of style \<open>A\<close> by those of
  style \<open>B\<close>; and the geometry of a rendered string: the lengths of its rows.
\<close>

definition substituteStyle :: "BitmapStyle \<Rightarrow> BitmapStyle \<Rightarrow> jsstring \<Rightarrow> jsstring" where
  "substituteStyle A B out =
     concat (map (\<lambda>c. if [c] = onChar A then onChar B
                      else if [c] = offChar A then offChar B
                      else [c]) out)"

fun splitRows :: "jsstring \<Rightarrow> jsstring list" where
  "splitRows [] = [[]]"
| "splitRows (c # cs) =
     (if c = newline then [] # splitRows cs
      else (case splitRows cs of
              [] \<Rightarrow> [[c]]
            | row # rows \<Rightarrow> (c # row) # rows))"

definition geometry :: "jsstring \<Rightarrow> nat list" where
  "geometry out = map length (splitRows out)"

section \<open>The catalog (App.tsx)\<close>

subsection \<open>The order of the displayed fonts\<close>

datatype LibraryFilter = FilterAll | FilterFiglet | FilterCfonts | FilterBitmap

datatype Source = SrcFiglet | SrcCfonts | SrcBitmap

record FontEntry =
  name :: jsstring
  renderKey :: jsstring
  source :: Source
  featured :: bool
  displayName :: jsstring

text \<open>
  The comparison function handed to \<open>entries.sort\<close> (source lines 153-161).
  \<open>String.prototype.localeCompare\<close> depends on the locale of the browser and is a
  parameter.
\<close>

definition compareEntries ::
  "(jsstring \<Rightarrow> jsstring \<Rightarrow> int) \<Rightarrow> LibraryFilter \<Rightarrow> FontEntry \<Rightarrow> FontEntry \<Rightarrow> int" where
  "compareEntries localeCompare libraryFilter a b =
     (if featured a \<and> \<not> featured b then - 1
      else if \<not> featured a \<and> featured b then 1
      else if libraryFilter = FilterAll \<and> source a \<noteq> source b then
        (if source a = SrcFiglet then - 1 else 1)
      else localeCompare (displayName a) (displayName b))"











subsection \<open>Array.prototype.sort\<close>







text \<open>
  Binary insertion (\<open>BinaryInsertionSort\<close>): the place of \<open>pivot\<close> in the sorted stretch
  \<open>a\<close> is searched between \<open>left\<close> and \<open>right\<close>; then the elements \<open>pending\<close> are inserted
  one after the other.
\<close>

function binarySearch :: "('a \<Rightarrow> 'a \<Rightarrow> int) \<Rightarrow> 'a \<Rightarrow> 'a list \<Rightarrow> nat \<Rightarrow> nat \<Rightarrow> nat" where
  "binarySearch comparefn pivot a left right =
     (if left < right then
        (let mid = left + (right - left) div 2 in
         if comparefn pivot (a ! mid) < 0 then binarySearch comparefn pivot a left mid
         else binarySearch comparefn pivot a (mid + 1) right)
      else left)"
  by pat_completeness auto
termination
  by (relation "measure (\<lambda>(comparefn, pivot, a, left, right). right - left)") auto

declare binarySearch.simps [simp del]

fun binaryInsertionSort :: "('a \<Rightarrow> 'a \<Rightarrow> int) \<Rightarrow> 'a list \<Rightarrow> 'a list \<Rightarrow> 'a list" where
  "binaryInsertionSort comparefn run [] = run"
| "binaryInsertionSort comparefn run (pivot # pending) =
     (let left = binarySearch comparefn pivot run 0 (length run)
      in binaryInsertionSort comparefn (take left run @ pivot # drop left run) pending)"


text \<open>The merge of the run \<open>a\<close> with the run \<open>b\<close> behind it.\<close>

fun mergeRuns :: "('a \<Rightarrow> 'a \<Rightarrow> int) \<Rightarrow> 'a list \<Rightarrow> 'a list \<Rightarrow> 'a list" where
  "mergeRuns comparefn [] b = b"
| "mergeRuns comparefn a [] = a"
| "mergeRuns comparefn (x # a) (y # b) =
     (if comparefn y x < 0 then y # mergeRuns comparefn (x # a) b
      else x # mergeRuns comparefn a (y # b))"


text \<open>
  The stack of pending runs, the last run first. \<open>mergeCollapse\<close> merges neighbouring
  runs until each run is longer than the two runs above it together, and each run
  longer than the run above it; \<open>mergeForceCollapse\<close> merges until one run is left.
\<close>

fun mergeCollapse :: "('a \<Rightarrow> 'a \<Rightarrow> int) \<Rightarrow> 'a list list \<Rightarrow> 'a list list" where
  "mergeCollapse comparefn (c # b # a # z # runs) =
     (if length a \<le> length b + length c \<or> length z \<le> length a + length b then
        (if length a < length c then mergeCollapse comparefn (c # mergeRuns comparefn a b # z # runs)
         else mergeCollapse comparefn (mergeRuns comparefn b c # a # z # runs))
      else if length b \<le> length c then mergeCollapse comparefn (mergeRuns comparefn b c # a # z # runs)
      else c # b # a # z # runs)"
| "mergeCollapse comparefn [c, b, a] =
     (if length a \<le> length b + length c then
        (if length a < length c then mergeCollapse comparefn [c, mergeRuns comparefn a b]
         else mergeCollapse comparefn [mergeRuns comparefn b c, a])
      else if length b \<le> length c then mergeCollapse comparefn [mergeRuns comparefn b c, a]
      else [c, b, a])"
| "mergeCollapse comparefn [c, b] =
     (if length b \<le> length c then mergeCollapse comparefn [mergeRuns comparefn b c] else [c, b])"
| "mergeCollapse comparefn runs = runs"

fun mergeForceCollapse :: "('a \<Rightarrow> 'a \<Rightarrow> int) \<Rightarrow> 'a list list \<Rightarrow> 'a list list" where
  "mergeForceCollapse comparefn (c # b # a # runs) =
     (if length a < length c then mergeForceCollapse comparefn (c # mergeRuns comparefn a b # runs)
      else mergeForceCollapse comparefn (mergeRuns comparefn b c # a # runs))"
| "mergeForceCollapse comparefn [c, b] = mergeForceCollapse comparefn [mergeRuns comparefn b c]"
| "mergeForceCollapse comparefn runs = runs"



lemma length_binaryInsertionSort [simp]:
  "length (binaryInsertionSort comparefn run pending) = length run + length pending"
  by (induction pending arbitrary: run) (simp_all add: Let_def)









subsection \<open>Loading the figlet fonts in batches\<close>

text \<open>
  The state the loader works on: the set behind \<open>loadedFontsRef\<close>, the React state
  \<open>loadedFonts\<close>, \<open>loadingProgress\<close> and \<open>isLoading\<close>, and the list of the snapshots handed
  to \<open>setLoadedFonts\<close>, the latest last.
\<close>

record LoaderState =
  loadedFontsRef :: "jsstring set"
  loadedFonts :: "jsstring set"
  loadingProgress :: nat
  isLoading :: bool
  published :: "jsstring set list"

definition initialLoaderState :: LoaderState where
  "initialLoaderState =
     \<lparr> loadedFontsRef = {}, loadedFonts = {}, loadingProgress = 0, isLoading = True,
       published = [] \<rparr>"

text \<open>
  What the loader reads: \<open>fontModules\<close> maps a module path to what its loader yields, the
  module's default export or a rejection; \<open>parseFont\<close> is \<open>figlet.parseFont\<close>, which may
  throw; \<open>cancelled n\<close> is the value of the flag \<open>cancelled\<close> when the loader resumes from
  its \<open>n\<close>-th \<open>await\<close> (the flag is set by the cleanup of the effect, which can only run
  while the loader is suspended).
\<close>

record LoaderEnv =
  fontModules :: "jsstring \<rightharpoonup> (error + jsstring)"
  parseFont :: "jsstring \<Rightarrow> jsstring \<Rightarrow> error + unit"
  cancelled :: "nat \<Rightarrow> bool"

definition BATCH_SIZE :: nat where
  "BATCH_SIZE = 20"

definition moduleKey :: "jsstring \<Rightarrow> jsstring" where
  "moduleKey fontName = js ''/node_modules/figlet/importable-fonts/'' @ fontName @ js ''.js''"

text \<open>
  One element of the batch (source lines 41-56): whether \<open>loadedFontsRef.current.add\<close> is
  reached, and the set after it.
\<close>

definition fontLoads :: "LoaderEnv \<Rightarrow> jsstring \<Rightarrow> bool" where
  "fontLoads env fontName =
     (case fontModules env (moduleKey fontName) of
        None \<Rightarrow> False
      | Some (Inl e) \<Rightarrow> False
      | Some (Inr module) \<Rightarrow>
          (case parseFont env fontName module of
             Inl e \<Rightarrow> False
           | Inr u \<Rightarrow> True))"

definition loadFont :: "LoaderEnv \<Rightarrow> jsstring \<Rightarrow> jsstring set \<Rightarrow> jsstring set" where
  "loadFont env fontName ref = (if fontLoads env fontName then insert fontName ref else ref)"

text \<open>
  \<open>loadFontBatch\<close>: the loads of a batch run interleaved and are awaited together; each
  adds its own name to the set or nothing, so the set after the batch does not depend on
  the interleaving.
\<close>

definition loadFontBatch :: "LoaderEnv \<Rightarrow> jsstring list \<Rightarrow> jsstring set \<Rightarrow> jsstring set" where
  "loadFontBatch env batch ref = fold (loadFont env) batch ref"

text \<open>
  The loop of \<open>loadAllFonts\<close> over \<open>remaining\<close> (source lines 71-78); \<open>i\<close> is the loop
  variable and \<open>n\<close> counts the \<open>await\<close>s passed so far.
\<close>

function loadRemaining ::
  "LoaderEnv \<Rightarrow> nat \<Rightarrow> jsstring list \<Rightarrow> nat \<Rightarrow> nat \<Rightarrow> LoaderState \<Rightarrow> LoaderState" where
  "loadRemaining env featuredLength remaining i n st =
     (if i < length remaining then
        if cancelled env n then st
        else
          (let batch = take BATCH_SIZE (drop i remaining);
               st1 = st\<lparr> loadedFontsRef := loadFontBatch env batch (loadedFontsRef st) \<rparr>
           in if cancelled env (n + 1) then st1
              else
                loadRemaining env featuredLength remaining (i + BATCH_SIZE) (n + 1)
                  (st1\<lparr> loadedFonts := loadedFontsRef st1,
                        published := published st1 @ [loadedFontsRef st1],
                        loadingProgress := featuredLength + i + length batch \<rparr>))
      else st\<lparr> isLoading := False \<rparr>)"
  by pat_completeness auto
termination
  by (relation "measure (\<lambda>(env, featuredLength, remaining, i, n, st). length remaining - i)")
     (auto simp: BATCH_SIZE_def)

declare loadRemaining.simps [simp del]

text \<open>
  \<open>loadAllFonts\<close> (source lines 60-80). \<open>FEATURED_FONTS\<close> and \<open>FIGLET_FONT_NAMES\<close> (module
  \<open>assets/fonts\<close>) are parameters.
\<close>

definition loadAllFonts ::
  "LoaderEnv \<Rightarrow> jsstring list \<Rightarrow> jsstring list \<Rightarrow> LoaderState \<Rightarrow> LoaderState" where
  "loadAllFonts env FEATURED_FONTS FIGLET_FONT_NAMES st =
     (let st1 = st\<lparr> loadedFontsRef := loadFontBatch env FEATURED_FONTS (loadedFontsRef st) \<rparr>
      in if cancelled env 1 then st1
         else
           (let st2 = st1\<lparr> loadedFonts := loadedFontsRef st1,
                            published := published st1 @ [loadedFontsRef st1],
                            loadingProgress := length FEATURED_FONTS \<rparr>;
                remaining = filter (\<lambda>f. f \<notin> set FEATURED_FONTS) FIGLET_FONT_NAMES
            in loadRemaining env (length FEATURED_FONTS) remaining 0 1 st2))"

section \<open>Row composition, stated apart from the loop\<close>

text \<open>
  The row of a text as the letter-spacing rule of the specification describes it: each
  character contributes its glyph fragment, or the spacing fragment when it has no glyph,
  and the letter spacing follows every character but the last, mapped or not.
\<close>

fun claimedRow :: "CfontsFont \<Rightarrow> nat \<Rightarrow> jsstring \<Rightarrow> jsstring" where
  "claimedRow font line [] = []"
| "claimedRow font line (ch # rest) =
     (case chars font [ch] of
        None \<Rightarrow> spacingFragment font line
      | Some charData \<Rightarrow> glyphFragment charData line)
     @ (case letterspace font of
          Some ls \<Rightarrow> if rest \<noteq> [] then letterGap ls line else []
        | None \<Rightarrow> [])
     @ claimedRow font line rest"

text \<open>
  The row with the letter spacing after glyphs only: a character without glyph
  contributes the spacing fragment and nothing else.
\<close>

fun composedRow :: "CfontsFont \<Rightarrow> nat \<Rightarrow> jsstring \<Rightarrow> jsstring" where
  "composedRow font line [] = []"
| "composedRow font line (ch # rest) =
     (case chars font [ch] of
        None \<Rightarrow> spacingFragment font line
      | Some charData \<Rightarrow>
          glyphFragment charData line
          @ (case letterspace font of
               Some ls \<Rightarrow> if rest \<noteq> [] then letterGap ls line else []
             | None \<Rightarrow> []))
     @ composedRow font line rest"


text \<open>A font of one row, as the cfonts font \<open>console\<close> is.\<close>

definition oneRowFont :: CfontsFont where
  "oneRowFont =
     \<lparr> chars = [js ''A'' \<mapsto> [js ''A'']],
       lines = 1,
       buffer = [[]],
       letterspace = Some [js '' ''],
       letterspace_size = 1,
       colors = 1 \<rparr>"

definition oneRowData :: CfontsData where
  "oneRowData = [js ''console'' \<mapsto> oneRowFont]"

section \<open>Sample data and auxiliary notions\<close>

text \<open>
  A bitmapit package whose \<open>generateText\<close> always throws, and a small default font with
  patterns for \<open>H\<close> and \<open>I\<close> only.
\<close>

definition throwingBitmapit :: "unit Bitmapit" where
  "throwingBitmapit =
     \<lparr> defaultFont = [],
       newGenerator = (\<lambda>w h s. Inr ()),
       defineCharacter = (\<lambda>gen char pattern. Inr gen),
       generateText = (\<lambda>gen text. Inl (Thrown (js ''Character not defined''))),
       toAscii = (\<lambda>gen bitmap on off. Inr []) \<rparr>"

definition tinyFont :: "(jsstring \<times> bitmap) list" where
  "tinyFont =
     [ (js ''H'', [[True, False, True], [True, False, True], [True, False, True],
                  [True, True, True], [True, False, True], [True, False, True],
                  [True, False, True], [False, False, False]]),
       (js ''I'', [[True], [True], [True], [True], [True], [True], [True], [False]]) ]"

text \<open>
  Any bitmapit package, with its \<open>toAscii\<close> replaced by the one of the specification:
  what \<open>generateText\<close> and the other calls do is left open.
\<close>

definition withSpecToAscii :: "'g Bitmapit \<Rightarrow> 'g Bitmapit" where
  "withSpecToAscii lib =
     lib\<lparr> toAscii := (\<lambda>gen bitmap on off. Inr (specToAscii bitmap on off)) \<rparr>"

text \<open>
  What the entries of \<open>BITMAP_STYLES\<close> have in common: both display characters are one
  code unit long, they differ, and neither is the line break. \<open>unitMap A B\<close> is the
  replacement of \<open>substituteStyle A B\<close> on one code unit.
\<close>

definition styleUnits :: "BitmapStyle \<Rightarrow> bool" where
  "styleUnits s =
     (length (onChar s) = 1 \<and> length (offChar s) = 1 \<and> onChar s \<noteq> offChar s
      \<and> onChar s \<noteq> [newline] \<and> offChar s \<noteq> [newline])"

definition unitMap :: "BitmapStyle \<Rightarrow> BitmapStyle \<Rightarrow> unit16 \<Rightarrow> unit16" where
  "unitMap A B c =
     (if [c] = onChar A then hd (onChar B)
      else if [c] = offChar A then hd (offChar B)
      else c)"









text \<open>
  A loader run: 25 figlet fonts \<open>A\<close> to \<open>Y\<close>, two of them featured; every module is
  found, \<open>parseFont\<close> throws on \<open>Q\<close>, and the effect is never cleaned up.
\<close>

definition sampleFiglet :: "jsstring list" where
  "sampleFiglet = map (\<lambda>c. [c]) (js ''ABCDEFGHIJKLMNOPQRSTUVWXY'')"

definition sampleFeatured :: "jsstring list" where
  "sampleFeatured = [js ''A'', js ''B'']"

definition sampleEnv :: LoaderEnv where
  "sampleEnv =
     \<lparr> fontModules = (\<lambda>key. Some (Inr (js ''flf2a''))),
       parseFont = (\<lambda>fontName data.
                     if fontName = js ''Q'' then Inl (Thrown (js ''bad font'')) else Inr ()),
       cancelled = (\<lambda>n. False) \<rparr>"

section \<open>Properties of the cfonts renderer\<close>

lemmas cfonts_eval =
  renderCfonts_def renderCfontsWith_def scenarioData_def scenarioFont_def js_def joinTrimmed_def
  renderRows_def renderRowsWith_def objectPrototypeKeys_def
  toUpperCase_def toUpperUnit_def appendRows_def glyphFragment_def spacingFragment_def
  letterGap_def at_def orElse_def matchColorTag_def trimTrailing_def isWhiteSpace_def
  isDigit_def newline_def upt_rec

lemma length_appendRows [simp]: "length (appendRows n frag out) = n"
  by (simp add: appendRows_def)

lemma length_renderLoop:
  "length out = lines font \<Longrightarrow> length (renderLoop font out inp) = lines font"
  by (induction inp arbitrary: out) (auto simp: Let_def split: option.splits)

lemma length_renderRowsWith [simp]: "length (renderRowsWith upper font text) = lines font"
  by (simp add: renderRowsWith_def length_renderLoop)

lemma length_renderRows [simp]: "length (renderRows font text) = lines font"
  by (simp add: renderRows_def)

lemma join_eq_Nil_iff: "join sep xs = [] \<longleftrightarrow> xs = [] \<or> xs = [[]]"
  by (induction sep xs rule: join.induct) auto

lemma sep_in_join: "2 \<le> length xs \<Longrightarrow> sep \<in> set (join sep xs)"
  by (induction sep xs rule: join.induct) auto

lemma trimTrailing_Nil [simp]: "trimTrailing [] = []"
  by (simp add: trimTrailing_def)

lemma join_replicate_Nil: "join sep (replicate n []) = replicate (n - 1) sep"
proof (induction n)
  case 0
  show ?case by simp
next
  case (Suc n)
  show ?case
  proof (cases n)
    case 0
    then show ?thesis by simp
  next
    case (Suc m)
    with Suc.IH show ?thesis by simp
  qed
qed

lemma renderRows_Nil [simp]: "renderRows font [] = replicate (lines font) []"
  by (simp add: renderRows_def renderRowsWith_def toUpperCase_def)

lemma newline_in_joinTrimmed:
  "2 \<le> length rows \<Longrightarrow> newline \<in> set (joinTrimmed rows)"
  by (simp add: joinTrimmed_def sep_in_join)

lemma renderCfonts_known:
  "CFONTS_DATA fontName = Some font \<Longrightarrow>
     renderCfonts CFONTS_DATA text fontName =
       Inr (if joinTrimmed (renderRows font text) = [] then None
            else Some (joinTrimmed (renderRows font text)))"
  by (simp add: renderCfonts_def renderCfontsWith_def renderRows_def Let_def)

text \<open>
  Claim C8. For a font of the font data with at least two rows, \<open>renderCfonts\<close> returns a
  string for every text, the empty text included: the joined rows contain a line break,
  so the result is never the empty string that is turned into \<open>null\<close>.
\<close>

theorem renderCfonts_multirow_never_null:
  assumes "CFONTS_DATA fontName = Some font" and "2 \<le> lines font"
  shows "\<exists>result. renderCfonts CFONTS_DATA text fontName = Inr (Some result)
           \<and> newline \<in> set result"
proof -
  have "newline \<in> set (joinTrimmed (renderRows font text))"
    using assms(2) by (simp add: newline_in_joinTrimmed)
  moreover from this have "joinTrimmed (renderRows font text) \<noteq> []"
    by auto
  ultimately show ?thesis
    using assms(1) by (simp add: renderCfonts_known)
qed

theorem renderCfonts_multirow_never_null_witness:
  "scenarioData (js ''scenario'') = Some scenarioFont \<and> 2 \<le> lines scenarioFont
   \<and> (\<exists>result. renderCfonts scenarioData [] (js ''scenario'') = Inr (Some result)
         \<and> newline \<in> set result)"
proof -
  have h1: "scenarioData (js ''scenario'') = Some scenarioFont"
    by (simp add: scenarioData_def)
  have h2: "2 \<le> lines scenarioFont"
    by (simp add: scenarioFont_def)
  have "\<exists>result. renderCfonts scenarioData [] (js ''scenario'') = Inr (Some result)
          \<and> newline \<in> set result"
    using h1 h2 by (rule renderCfonts_multirow_never_null)
  with h1 h2 show ?thesis
    by simp
qed

section \<open>Post-processing\<close>

lemma trimTrailing_split:
  "\<exists>ws. row = trimTrailing row @ ws \<and> list_all isWhiteSpace ws"
proof -
  have "trimTrailing row @ rev (takeWhile isWhiteSpace (rev row))
          = rev (takeWhile isWhiteSpace (rev row) @ dropWhile isWhiteSpace (rev row))"
    by (simp only: trimTrailing_def rev_append)
  also have "\<dots> = row"
    by (simp only: takeWhile_dropWhile_id rev_rev_ident)
  finally have "row = trimTrailing row @ rev (takeWhile isWhiteSpace (rev row))"
    by (rule sym)
  moreover have "list_all isWhiteSpace (rev (takeWhile isWhiteSpace (rev row)))"
    by (simp add: list_all_iff) (metis set_takeWhileD)
  ultimately show ?thesis by blast
qed

lemma trimTrailing_last:
  "\<not> (trimTrailing row \<noteq> [] \<and> isWhiteSpace (last (trimTrailing row)))"
proof
  assume a: "trimTrailing row \<noteq> [] \<and> isWhiteSpace (last (trimTrailing row))"
  then have ne: "dropWhile isWhiteSpace (rev row) \<noteq> []"
    by (simp add: trimTrailing_def)
  then have "\<not> isWhiteSpace (hd (dropWhile isWhiteSpace (rev row)))"
    by (rule hd_dropWhile)
  moreover have "last (trimTrailing row) = hd (dropWhile isWhiteSpace (rev row))"
    using ne by (simp add: trimTrailing_def last_rev)
  ultimately show False using a by simp
qed

text \<open>
  Claim C5. The scenario font renders \<open>"A"\<close> as the two rows of the glyph, unchanged,
  with a line break between them. In general the post-processing trims every row on its
  own and joins the rows by line breaks; what trimming removes from a row is a run of
  white space at its end, so every character before the last visible one stays, and the
  trimmed row does not end in white space.
\<close>

theorem scenario_render_and_trim:
  "renderCfonts scenarioData (js ''A'') (js ''scenario'')
     = Inr (Some ([0x2F, 0x5C] @ [newline] @ [0x2F, 0x20, 0x20, 0x5C]))
   \<and> joinTrimmed rows = join newline (map trimTrailing rows)
   \<and> (\<exists>ws. row = trimTrailing row @ ws \<and> list_all isWhiteSpace ws)
   \<and> \<not> (trimTrailing row \<noteq> [] \<and> isWhiteSpace (last (trimTrailing row)))"
proof -
  have "renderCfonts scenarioData (js ''A'') (js ''scenario'')
     = Inr (Some ([0x2F, 0x5C] @ [newline] @ [0x2F, 0x20, 0x20, 0x5C]))"
    by (simp add: cfonts_eval)
  then show ?thesis
    using trimTrailing_split [of row] trimTrailing_last [of row]
    by (simp add: joinTrimmed_def)
qed

theorem scenario_render_and_trim_witness:
  "trimTrailing (js '' a b  '') = js '' a b''
   \<and> joinTrimmed [js '' a  '', js ''  '', js ''b '']
       = js '' a'' @ [newline] @ [newline] @ js ''b''"
  using scenario_render_and_trim [of "[js '' a  '', js ''  '', js ''b '']" "js '' a b  ''"]
  by (simp add: cfonts_eval)

section \<open>When the result is null\<close>












section \<open>Letter spacing and characters without glyph\<close>

lemma nth_appendRows:
  "line < n \<Longrightarrow> appendRows n frag out ! line = out ! line @ frag line"
  by (simp add: appendRows_def)

lemma renderLoop_nth:
  "length out = lines font \<Longrightarrow> line < lines font \<Longrightarrow>
     renderLoop font out inp ! line = out ! line @ composedRow font line inp"
proof (induction inp arbitrary: out)
  case Nil
  show ?case by simp
next
  case (Cons ch rest)
  show ?case
  proof (cases "chars font [ch]")
    case None
    with Cons show ?thesis
      by (simp add: nth_appendRows)
  next
    case (Some charData)
    with Cons show ?thesis
      by (cases "letterspace font") (simp_all add: nth_appendRows Let_def)
  qed
qed

lemma renderRowsWith_all:
  "renderRowsWith upper font text
     = map (\<lambda>line. composedRow font line (upper text)) [0..<lines font]"
  by (rule nth_equalityI) (simp_all add: renderRowsWith_def renderLoop_nth length_renderLoop)

lemma renderRows_all:
  "renderRows font text = map (\<lambda>line. composedRow font line (toUpperCase text)) [0..<lines font]"
  by (simp add: renderRows_def renderRowsWith_all)

text \<open>
  Claim C2, as stated, fails: in the text \<open>" A"\<close> the space has no glyph, and the code
  adds the spacing fragment for it and goes on to the next character; the letter spacing
  that the claim puts after every character but the last is not added after it.
\<close>

theorem letter_spacing_counterexample:
  "letterspace scenarioFont = Some [js ''  '', js ''  '']
   \<and> renderRows scenarioFont (js '' A'') ! 0 = js ''  /'' @ [0x5C]
   \<and> claimedRow scenarioFont 0 (toUpperCase (js '' A'')) = js ''    /'' @ [0x5C]
   \<and> renderRows scenarioFont (js '' A'') ! 0
       \<noteq> claimedRow scenarioFont 0 (toUpperCase (js '' A''))"
  by (simp add: cfonts_eval)

text \<open>
  Claim C2, amended. The \<open>lines\<close> rows of the output are composed character by character
  over the upper-cased text: a character with a glyph contributes its glyph fragment,
  followed by the letter spacing once when the font has a spacing template and the
  character is not the last; a character without glyph contributes the spacing fragment
  only.
\<close>

theorem letter_spacing_after_glyphs_only:
  "renderRows font text
     = map (\<lambda>line. composedRow font line (toUpperCase text)) [0..<lines font]"
  by (rule renderRows_all)

theorem letter_spacing_after_glyphs_only_witness:
  "renderRows scenarioFont (js ''A A'')
     = [composedRow scenarioFont 0 (js ''A A''), composedRow scenarioFont 1 (js ''A A'')]
   \<and> composedRow scenarioFont 0 (js ''A A'') = js ''/'' @ [0x5C] @ js ''    /'' @ [0x5C]
   \<and> composedRow scenarioFont 1 (js ''A A'')
       = js ''/  '' @ [0x5C] @ js ''    /  '' @ [0x5C]"
  using letter_spacing_after_glyphs_only [of scenarioFont "js ''A A''"]
  by (simp add: cfonts_eval)




section \<open>The empty text\<close>

lemma renderCfonts_empty_text:
  "CFONTS_DATA fontName = Some font \<Longrightarrow>
     renderCfonts CFONTS_DATA [] fontName =
       Inr (if lines font \<le> 1 then None else Some (replicate (lines font - 1) newline))"
  by (auto simp: renderCfonts_known joinTrimmed_def join_replicate_Nil)

lemma renderBitmap_None_cases:
  assumes "find (\<lambda>s. BitmapStyle.name s = styleName) BITMAP_STYLES = None
     \<or> (\<exists>e. fst (getGenerator lib generator) = Inl e)
     \<or> (\<exists>gen. fst (getGenerator lib generator) = Inr gen \<and>
          ((\<exists>e. generateText lib gen text = Inl e)
           \<or> generateText lib gen text = Inr None
           \<or> generateText lib gen text = Inr (Some [])
           \<or> (\<exists>bitmap style. generateText lib gen text = Inr (Some bitmap)
                 \<and> find (\<lambda>s. BitmapStyle.name s = styleName) BITMAP_STYLES = Some style
                 \<and> ((\<exists>e. toAscii lib gen bitmap (onChar style) (offChar style) = Inl e)
                      \<or> toAscii lib gen bitmap (onChar style) (offChar style) = Inr []))))"
  shows "fst (renderBitmap lib generator text styleName) = None"
  using assms
  by (cases "getGenerator lib generator")
     (auto simp: renderBitmap_def renderBitmapTry_def split: option.splits sum.splits prod.splits)

lemmas bitmap_eval =
  renderBitmap_def renderBitmapTry_def getGenerator_def BITMAP_STYLES_def js_def
  specBitmapit_def specGenerateText_def specToAscii_def throwingBitmapit_def tinyFont_def
  withSpecToAscii_def at_def newline_def upt_rec

lemma emptyFont_generator:
  "fst (getGenerator (specBitmapit []) None)
     = Inr \<lparr> width = 8, height = 8, spacing = 1, patterns = Map.empty \<rparr>"
  by (simp add: bitmap_eval)

lemma emptyFont_generateText:
  "generateText (specBitmapit []) \<lparr> width = 8, height = 8, spacing = 1, patterns = Map.empty \<rparr> t
     = Inr (Some [])"
  by (simp add: specBitmapit_def specGenerateText_def List.map_filter_def)

text \<open>
  With the generator of the specification, whose matrix is empty when no character
  matched, the empty text gives \<open>null\<close> in every style and every state of the generator.
\<close>

lemma specGenerateText_Nil [simp]: "specGenerateText gen [] = []"
  by (simp add: specGenerateText_def)

lemma defineAll_spec:
  "\<exists>gen'. defineAll (specBitmapit font) gen entries = (gen', None)"
  by (induction entries arbitrary: gen) (auto simp: specBitmapit_def)

lemma getGenerator_spec:
  "\<exists>gen generator'. getGenerator (specBitmapit font) generator = (Inr gen, generator')"
proof (cases generator)
  case None
  obtain gen' where
    "defineAll (specBitmapit font)
       \<lparr> width = 8, height = 8, spacing = 1, patterns = Map.empty \<rparr> font = (gen', None)"
    using defineAll_spec by blast
  with None show ?thesis
    by (simp add: getGenerator_def specBitmapit_def)
next
  case (Some g)
  then show ?thesis by (simp add: getGenerator_def)
qed

lemma renderBitmap_spec_empty_text:
  "fst (renderBitmap (specBitmapit font) generator [] styleName) = None"
proof -
  obtain gen generator' where g: "getGenerator (specBitmapit font) generator = (Inr gen, generator')"
    using getGenerator_spec by blast
  have gt: "generateText (specBitmapit font) gen [] = Inr (Some [])"
    by (simp add: specBitmapit_def)
  show ?thesis
    by (simp add: renderBitmap_def renderBitmapTry_def g gt split: option.splits)
qed

text \<open>
  Claim C1, as stated, fails for the cfonts renderer: the scenario font has two rows, and
  for the empty text the two empty rows are joined to a string of one line break, which
  is not the empty string, so \<open>renderCfonts\<close> returns it.
\<close>

theorem empty_text_counterexample:
  "scenarioData (js ''scenario'') = Some scenarioFont
   \<and> renderCfonts scenarioData [] (js ''scenario'') = Inr (Some [newline])"
  by (simp add: cfonts_eval join_replicate_Nil)

text \<open>
  Claim C1, amended. For a font of the font data, \<open>renderCfonts\<close> of the empty text is
  \<open>null\<close> when the font has at most one row, and the string of \<open>lines - 1\<close> line breaks
  otherwise. \<open>renderBitmap\<close> of the empty text is \<open>null\<close> for every style name, in every
  state of the generator; here the generator is the one of the specification, whose
  matrix is empty when no character matched.
\<close>

theorem empty_text_results:
  "(CFONTS_DATA fontName = Some font \<longrightarrow>
      renderCfonts CFONTS_DATA [] fontName =
        Inr (if lines font \<le> 1 then None else Some (replicate (lines font - 1) newline)))
   \<and> fst (renderBitmap (specBitmapit bitmapFont) generator [] styleName) = None"
  by (simp add: renderCfonts_empty_text renderBitmap_spec_empty_text)

lemma hi_rendered:
  "fst (renderBitmap (specBitmapit tinyFont) None (js ''HI'') (js ''bitmap-hash''))
     = Some (js ''# # #'' @ [newline] @ js ''# # #'' @ [newline] @ js ''# # #'' @ [newline]
         @ js ''### #'' @ [newline] @ js ''# # #'' @ [newline] @ js ''# # #'' @ [newline]
         @ js ''# # #'' @ [newline] @ js ''     '')"
  by (simp add: bitmap_eval)

theorem empty_text_results_witness:
  "oneRowData (js ''console'') = Some oneRowFont \<and> lines oneRowFont = 1
   \<and> renderCfonts oneRowData [] (js ''console'') = Inr None
   \<and> scenarioData (js ''scenario'') = Some scenarioFont \<and> lines scenarioFont = 2
   \<and> renderCfonts scenarioData [] (js ''scenario'') = Inr (Some [newline])
   \<and> fst (renderBitmap (specBitmapit tinyFont) None [] (js ''bitmap-hash'')) = None
   \<and> fst (renderBitmap (specBitmapit tinyFont) None (js ''HI'') (js ''bitmap-hash''))
       = Some (js ''# # #'' @ [newline] @ js ''# # #'' @ [newline] @ js ''# # #'' @ [newline]
           @ js ''### #'' @ [newline] @ js ''# # #'' @ [newline] @ js ''# # #'' @ [newline]
           @ js ''# # #'' @ [newline] @ js ''     '')"
  using empty_text_results [of oneRowData "js ''console''" oneRowFont tinyFont None
          "js ''bitmap-hash''"]
        empty_text_results [of scenarioData "js ''scenario''" scenarioFont tinyFont None
          "js ''bitmap-hash''"]
        hi_rendered
  by (simp add: oneRowData_def oneRowFont_def scenarioData_def scenarioFont_def)

section \<open>The results of the bitmap renderer\<close>

text \<open>
  Claim C7. \<open>renderBitmap\<close> returns \<open>null\<close> when the style name is not the name of a
  bitmap style, when the generated matrix is absent or has no rows, and when the
  stringified result is empty; and when \<open>getGenerator\<close>, \<open>generateText\<close> or \<open>toAscii\<close>
  throws, the exception is caught and the result is \<open>null\<close>. The result of \<open>renderBitmap\<close>
  is a string or \<open>null\<close> in every case: no exception leaves it.
\<close>

theorem renderBitmap_null:
  assumes "find (\<lambda>s. BitmapStyle.name s = styleName) BITMAP_STYLES = None
     \<or> (\<exists>e. fst (getGenerator lib generator) = Inl e)
     \<or> (\<exists>gen. fst (getGenerator lib generator) = Inr gen \<and>
          ((\<exists>e. generateText lib gen text = Inl e)
           \<or> generateText lib gen text = Inr None
           \<or> generateText lib gen text = Inr (Some [])
           \<or> (\<exists>bitmap style. generateText lib gen text = Inr (Some bitmap)
                 \<and> find (\<lambda>s. BitmapStyle.name s = styleName) BITMAP_STYLES = Some style
                 \<and> ((\<exists>e. toAscii lib gen bitmap (onChar style) (offChar style) = Inl e)
                      \<or> toAscii lib gen bitmap (onChar style) (offChar style) = Inr []))))"
  shows "fst (renderBitmap lib generator text styleName) = None"
  using assms by (rule renderBitmap_None_cases)

theorem renderBitmap_null_witness:
  "find (\<lambda>s. BitmapStyle.name s = js ''bitmap-fancy'') BITMAP_STYLES = None
   \<and> fst (renderBitmap (specBitmapit tinyFont) None (js ''HI'') (js ''bitmap-fancy'')) = None
   \<and> fst (getGenerator throwingBitmapit None) = Inr ()
   \<and> generateText throwingBitmapit () (js ''HI'') = Inl (Thrown (js ''Character not defined''))
   \<and> fst (renderBitmap throwingBitmapit None (js ''HI'') (js ''bitmap-hash'')) = None
   \<and> generateText (specBitmapit [])
         \<lparr> width = 8, height = 8, spacing = 1, patterns = Map.empty \<rparr> (js ''HI'') = Inr (Some [])
   \<and> fst (renderBitmap (specBitmapit []) None (js ''HI'') (js ''bitmap-hash'')) = None"
proof -
  have a: "find (\<lambda>s. BitmapStyle.name s = js ''bitmap-fancy'') BITMAP_STYLES = None"
    by (simp add: BITMAP_STYLES_def js_def)
  have b: "fst (getGenerator throwingBitmapit None) = Inr ()"
    and c: "generateText throwingBitmapit () (js ''HI'') = Inl (Thrown (js ''Character not defined''))"
    by (simp_all add: getGenerator_def throwingBitmapit_def)
  note d = emptyFont_generator emptyFont_generateText [of "js ''HI''"]
  have "fst (renderBitmap (specBitmapit tinyFont) None (js ''HI'') (js ''bitmap-fancy'')) = None"
    using a by (intro renderBitmap_null) blast
  moreover have "fst (renderBitmap throwingBitmapit None (js ''HI'') (js ''bitmap-hash'')) = None"
    using b c by (intro renderBitmap_null) blast
  moreover have "fst (renderBitmap (specBitmapit []) None (js ''HI'') (js ''bitmap-hash'')) = None"
    using d by (intro renderBitmap_null) blast
  ultimately show ?thesis
    using a b c d by simp
qed

section \<open>Styles over one pixel font\<close>

lemma BITMAP_STYLES_units: "list_all styleUnits BITMAP_STYLES"
  by (simp add: BITMAP_STYLES_def styleUnits_def js_def newline_def)

lemma BITMAP_STYLES_distinct: "distinct (map BitmapStyle.name BITMAP_STYLES)"
  by (simp add: BITMAP_STYLES_def js_def)

lemma find_by_name:
  "distinct (map BitmapStyle.name xs) \<Longrightarrow> A \<in> set xs \<Longrightarrow>
     find (\<lambda>s. BitmapStyle.name s = BitmapStyle.name A) xs = Some A"
  by (induction xs) (auto simp: rev_image_eqI)

lemma find_style:
  "A \<in> set BITMAP_STYLES \<Longrightarrow>
     find (\<lambda>s. BitmapStyle.name s = BitmapStyle.name A) BITMAP_STYLES = Some A"
  by (rule find_by_name [OF BITMAP_STYLES_distinct])

lemma style_units:
  "A \<in> set BITMAP_STYLES \<Longrightarrow> styleUnits A"
  using BITMAP_STYLES_units by (simp add: list_all_iff)

lemma singleton_hd: "length xs = 1 \<Longrightarrow> xs = [hd xs]"
  by (cases xs) simp_all

lemma substituteStyle_map:
  assumes "styleUnits B"
  shows "substituteStyle A B out = map (unitMap A B) out"
proof -
  have on: "onChar B = [hd (onChar B)]" and off: "offChar B = [hd (offChar B)]"
    using assms by (simp_all add: styleUnits_def singleton_hd)
  have "(\<lambda>c. if [c] = onChar A then onChar B else if [c] = offChar A then offChar B else [c])
          = (\<lambda>c. [unitMap A B c])"
    using on off by (auto simp: unitMap_def fun_eq_iff)
  then show ?thesis
    by (simp add: substituteStyle_def)
qed

lemma unitMap_newline:
  assumes "styleUnits A" "styleUnits B"
  shows "unitMap A B c = newline \<longleftrightarrow> c = newline"
proof -
  have "onChar B = [hd (onChar B)]" "offChar B = [hd (offChar B)]"
    using assms by (simp_all add: styleUnits_def singleton_hd)
  then have "hd (onChar B) \<noteq> newline" "hd (offChar B) \<noteq> newline"
    using assms(2) by (auto simp: styleUnits_def)
  moreover have "[newline] \<noteq> onChar A" "[newline] \<noteq> offChar A"
    using assms(1) by (auto simp: styleUnits_def)
  ultimately show ?thesis
    by (auto simp: unitMap_def)
qed

lemma map_join:
  "f sep = sep \<Longrightarrow> map f (join sep rows) = join sep (map (map f) rows)"
  by (induction sep rows rule: join.induct) simp_all

lemma splitRows_map:
  assumes "\<And>c. f c = newline \<longleftrightarrow> c = newline"
  shows "splitRows (map f out) = map (map f) (splitRows out)"
proof (induction out)
  case Nil
  show ?case by simp
next
  case (Cons c cs)
  then show ?case
    by (cases "splitRows cs") (simp_all add: assms)
qed

lemma geometry_substituteStyle:
  "styleUnits A \<Longrightarrow> styleUnits B \<Longrightarrow> geometry (substituteStyle A B out) = geometry out"
  by (simp add: substituteStyle_map geometry_def splitRows_map [of "unitMap A B"] unitMap_newline
         comp_def)

lemma length_one: "length xs = 1 \<Longrightarrow> \<exists>x. xs = [x]"
  by (cases xs) simp_all

lemma unitMap_cells:
  assumes "styleUnits A" "styleUnits B"
  shows "map (unitMap A B) (onChar A) = onChar B" and "map (unitMap A B) (offChar A) = offChar B"
proof -
  obtain a1 a0 b1 b0 where u: "onChar A = [a1]" "offChar A = [a0]" "onChar B = [b1]" "offChar B = [b0]"
    using assms length_one unfolding styleUnits_def by metis
  moreover have "a1 \<noteq> a0"
    using assms(1) u by (simp add: styleUnits_def)
  ultimately show "map (unitMap A B) (onChar A) = onChar B"
    and "map (unitMap A B) (offChar A) = offChar B"
    by (simp_all add: unitMap_def)
qed

lemma specToAscii_substitute:
  assumes "styleUnits A" "styleUnits B"
  shows "specToAscii bitmap (onChar B) (offChar B)
           = substituteStyle A B (specToAscii bitmap (onChar A) (offChar A))"
proof -
  have row: "map (unitMap A B) (concat (map (\<lambda>cell. if cell then onChar A else offChar A) r))
           = concat (map (\<lambda>cell. if cell then onChar B else offChar B) r)" for r
    by (induction r) (simp_all add: unitMap_cells [OF assms])
  have "unitMap A B newline = newline"
    using unitMap_newline [OF assms] by simp
  then show ?thesis
    by (simp add: substituteStyle_map [OF assms(2)] specToAscii_def map_join comp_def row)
qed

lemma substituteStyle_Nil_iff:
  "styleUnits B \<Longrightarrow> substituteStyle A B out = [] \<longleftrightarrow> out = []"
  by (simp add: substituteStyle_map)

lemma renderBitmapTry_substitute:
  assumes "styleUnits A" "styleUnits B"
  shows "fst (renderBitmapTry (withSpecToAscii lib) generator text B)
       = map_sum id (map_option (substituteStyle A B))
           (fst (renderBitmapTry (withSpecToAscii lib) generator text A))"
proof -
  have e: "(specToAscii bitmap (onChar B) (offChar B) = [])
         = (specToAscii bitmap (onChar A) (offChar A) = [])" for bitmap
    using specToAscii_substitute [OF assms, of bitmap] substituteStyle_Nil_iff [OF assms(2)]
    by simp
  show ?thesis
    by (cases "getGenerator (withSpecToAscii lib) generator")
       (auto simp: renderBitmapTry_def withSpecToAscii_def e
                   specToAscii_substitute [OF assms, symmetric]
             split: sum.splits option.splits)
qed

lemma getGenerator_again:
  assumes "fst (getGenerator lib generator) = Inr gen"
  shows "getGenerator lib (snd (getGenerator lib generator)) = (Inr gen, Some gen)"
  using assms
  by (auto simp: getGenerator_def split: option.splits sum.splits prod.splits)

lemma renderBitmap_state:
  "find (\<lambda>s. BitmapStyle.name s = styleName) BITMAP_STYLES = Some style \<Longrightarrow>
     snd (renderBitmap lib generator t styleName) = snd (getGenerator lib generator)"
  by (cases "getGenerator lib generator")
     (auto simp: renderBitmap_def renderBitmapTry_def split: option.splits sum.splits prod.splits)

lemma renderBitmap_fst_cong:
  assumes "fst (getGenerator lib g1) = fst (getGenerator lib g2)"
  shows "fst (renderBitmap lib g1 t styleName) = fst (renderBitmap lib g2 t styleName)"
proof -
  obtain r s1 s2 where "getGenerator lib g1 = (r, s1)" "getGenerator lib g2 = (r, s2)"
    using assms by (cases "getGenerator lib g1"; cases "getGenerator lib g2") simp
  then show ?thesis
    by (cases r) (auto simp: renderBitmap_def renderBitmapTry_def split: option.splits sum.splits)
qed

lemma renderBitmap_same_generator:
  assumes "fst (getGenerator lib generator) = Inr gen"
    and "find (\<lambda>s. BitmapStyle.name s = styleName) BITMAP_STYLES = Some style"
  shows "fst (renderBitmap lib (snd (renderBitmap lib generator t styleName)) t' styleName')
           = fst (renderBitmap lib generator t' styleName')"
proof (rule renderBitmap_fst_cong)
  show "fst (getGenerator lib (snd (renderBitmap lib generator t styleName)))
          = fst (getGenerator lib generator)"
    using assms by (simp add: renderBitmap_state getGenerator_again)
qed

text \<open>
  Claim C6. For every text and any two styles of \<open>BITMAP_STYLES\<close>, rendered in the same
  state of the generator: replacing the display characters of style \<open>A\<close> by those of
  style \<open>B\<close> in the output of \<open>A\<close> gives the output of \<open>B\<close> (and one is \<open>null\<close> exactly when
  the other is), and the two outputs have the same number of rows and the same row
  lengths. The same holds when \<open>B\<close> is rendered in the state that rendering \<open>A\<close> has left,
  provided that building the generator does not throw. The conversion of the matrix to
  text is the one of the specification.
\<close>

theorem style_substitution:
  assumes "A \<in> set BITMAP_STYLES" and "B \<in> set BITMAP_STYLES"
  shows "fst (renderBitmap (withSpecToAscii lib) generator text (BitmapStyle.name B))
           = map_option (substituteStyle A B)
               (fst (renderBitmap (withSpecToAscii lib) generator text (BitmapStyle.name A)))
       \<and> map_option geometry
             (fst (renderBitmap (withSpecToAscii lib) generator text (BitmapStyle.name B)))
           = map_option geometry
               (fst (renderBitmap (withSpecToAscii lib) generator text (BitmapStyle.name A)))
       \<and> ((\<exists>gen. fst (getGenerator (withSpecToAscii lib) generator) = Inr gen) \<longrightarrow>
            fst (renderBitmap (withSpecToAscii lib)
                   (snd (renderBitmap (withSpecToAscii lib) generator text (BitmapStyle.name A)))
                   text (BitmapStyle.name B))
              = map_option (substituteStyle A B)
                  (fst (renderBitmap (withSpecToAscii lib) generator text (BitmapStyle.name A))))"
proof -
  have uA: "styleUnits A" and uB: "styleUnits B"
    using assms by (simp_all add: style_units)
  have main: "fst (renderBitmap (withSpecToAscii lib) generator text (BitmapStyle.name B))
           = map_option (substituteStyle A B)
               (fst (renderBitmap (withSpecToAscii lib) generator text (BitmapStyle.name A)))"
    using renderBitmapTry_substitute [OF uA uB, of lib generator "text"]
    by (cases "renderBitmapTry (withSpecToAscii lib) generator text A";
        cases "renderBitmapTry (withSpecToAscii lib) generator text B")
       (auto simp: renderBitmap_def find_style [OF assms(1)] find_style [OF assms(2)]
             split: sum.splits)
  have geo: "map_option geometry
             (fst (renderBitmap (withSpecToAscii lib) generator text (BitmapStyle.name B)))
           = map_option geometry
               (fst (renderBitmap (withSpecToAscii lib) generator text (BitmapStyle.name A)))"
    by (simp add: main option.map_comp comp_def geometry_substituteStyle [OF uA uB])
  have seq: "fst (renderBitmap (withSpecToAscii lib)
                   (snd (renderBitmap (withSpecToAscii lib) generator text (BitmapStyle.name A)))
                   text (BitmapStyle.name B))
              = fst (renderBitmap (withSpecToAscii lib) generator text (BitmapStyle.name B))"
    if "fst (getGenerator (withSpecToAscii lib) generator) = Inr gen" for gen
    using that find_style [OF assms(1)] by (rule renderBitmap_same_generator)
  show ?thesis
    using main geo seq by auto
qed

lemma hi_hash:
  "fst (renderBitmap (withSpecToAscii (specBitmapit tinyFont)) None (js ''HI'') (js ''bitmap-hash''))
     = Some (js ''# # #'' @ [newline] @ js ''# # #'' @ [newline] @ js ''# # #'' @ [newline]
         @ js ''### #'' @ [newline] @ js ''# # #'' @ [newline] @ js ''# # #'' @ [newline]
         @ js ''# # #'' @ [newline] @ js ''     '')"
  by (simp add: bitmap_eval)

lemma tinyFont_generator:
  "\<exists>gen. fst (getGenerator (withSpecToAscii (specBitmapit tinyFont)) None) = Inr gen"
  by (simp add: bitmap_eval)

theorem style_substitution_witness:
  "BITMAP_STYLES ! 1 \<in> set BITMAP_STYLES \<and> BITMAP_STYLES ! 6 \<in> set BITMAP_STYLES
   \<and> BitmapStyle.name (BITMAP_STYLES ! 1) = js ''bitmap-hash''
   \<and> BitmapStyle.name (BITMAP_STYLES ! 6) = js ''bitmap-zero-one''
   \<and> fst (renderBitmap (withSpecToAscii (specBitmapit tinyFont)) None (js ''HI'') (js ''bitmap-hash''))
       = Some (js ''# # #'' @ [newline] @ js ''# # #'' @ [newline] @ js ''# # #'' @ [newline]
           @ js ''### #'' @ [newline] @ js ''# # #'' @ [newline] @ js ''# # #'' @ [newline]
           @ js ''# # #'' @ [newline] @ js ''     '')
   \<and> fst (renderBitmap (withSpecToAscii (specBitmapit tinyFont)) None (js ''HI'')
            (js ''bitmap-zero-one''))
       = Some (js ''10101'' @ [newline] @ js ''10101'' @ [newline] @ js ''10101'' @ [newline]
           @ js ''11101'' @ [newline] @ js ''10101'' @ [newline] @ js ''10101'' @ [newline]
           @ js ''10101'' @ [newline] @ js ''00000'')
   \<and> (\<exists>gen. fst (getGenerator (withSpecToAscii (specBitmapit tinyFont)) None) = Inr gen)
   \<and> fst (renderBitmap (withSpecToAscii (specBitmapit tinyFont))
            (snd (renderBitmap (withSpecToAscii (specBitmapit tinyFont)) None (js ''HI'')
                    (js ''bitmap-hash'')))
            (js ''HI'') (js ''bitmap-zero-one''))
       = Some (js ''10101'' @ [newline] @ js ''10101'' @ [newline] @ js ''10101'' @ [newline]
           @ js ''11101'' @ [newline] @ js ''10101'' @ [newline] @ js ''10101'' @ [newline]
           @ js ''10101'' @ [newline] @ js ''00000'')"
proof -
  have m1: "BITMAP_STYLES ! 1 \<in> set BITMAP_STYLES" and m6: "BITMAP_STYLES ! 6 \<in> set BITMAP_STYLES"
    by (simp_all add: BITMAP_STYLES_def)
  have n1: "BitmapStyle.name (BITMAP_STYLES ! 1) = js ''bitmap-hash''"
    and n6: "BitmapStyle.name (BITMAP_STYLES ! 6) = js ''bitmap-zero-one''"
    by (simp_all add: BITMAP_STYLES_def)
  have s: "substituteStyle (BITMAP_STYLES ! 1) (BITMAP_STYLES ! 6)
             (js ''# # #'' @ [newline] @ js ''# # #'' @ [newline] @ js ''# # #'' @ [newline]
           @ js ''### #'' @ [newline] @ js ''# # #'' @ [newline] @ js ''# # #'' @ [newline]
           @ js ''# # #'' @ [newline] @ js ''     '')
         = js ''10101'' @ [newline] @ js ''10101'' @ [newline] @ js ''10101'' @ [newline]
           @ js ''11101'' @ [newline] @ js ''10101'' @ [newline] @ js ''10101'' @ [newline]
           @ js ''10101'' @ [newline] @ js ''00000''"
    by (simp add: substituteStyle_def BITMAP_STYLES_def js_def newline_def)
  from style_substitution [OF m1 m6, of "specBitmapit tinyFont" None "js ''HI''"]
       hi_hash s m1 m6 n1 n6 tinyFont_generator
  show ?thesis
    by simp
qed

section \<open>The order of the catalog\<close>

text \<open>
  With the filter \<open>all\<close> the comparison function puts a cfonts entry after a bitmap
  entry and a bitmap entry after a cfonts entry, whatever \<open>localeCompare\<close> does.
\<close>

lemma compareEntries_other_libraries:
  assumes "\<not> featured a" "\<not> featured b" "source a \<noteq> SrcFiglet" "source b \<noteq> SrcFiglet"
    "source a \<noteq> source b"
  shows "compareEntries localeCompare FilterAll a b = 1
       \<and> compareEntries localeCompare FilterAll b a = 1"
  using assms by (simp add: compareEntries_def)

subsection \<open>The sort\<close>












lemma set_mergeRuns [simp]: "set (mergeRuns comparefn a b) = set a \<union> set b"
  by (induction comparefn a b rule: mergeRuns.induct) auto

lemma mset_mergeRuns [simp]: "mset (mergeRuns comparefn a b) = mset a + mset b"
  by (induction comparefn a b rule: mergeRuns.induct) auto







lemma mset_mergeCollapse [simp]:
  "mset (concat (mergeCollapse comparefn runs)) = mset (concat runs)"
  by (induction comparefn runs rule: mergeCollapse.induct) simp_all


lemma mset_mergeForceCollapse [simp]:
  "mset (concat (mergeForceCollapse comparefn runs)) = mset (concat runs)"
  by (induction comparefn runs rule: mergeForceCollapse.induct) simp_all





subsection \<open>The displayed fonts\<close>
















section \<open>Loading in batches\<close>

lemma batch_count_step:
  assumes "i < n"
  shows "Suc ((n - (i + 20) + 19) div 20) = (n - i + 19) div (20::nat)"
proof (cases "i + 20 \<le> n")
  case True
  then have "n - i + 19 = (n - (i + 20) + 19) + 20"
    by simp
  then have "(n - i + 19) div 20 = ((n - (i + 20) + 19) + 20) div 20"
    by (rule arg_cong)
  then show ?thesis
    by (simp only: div_add_self2)
next
  case False
  with assms have z: "n - (i + 20) = 0" and lo: "20 * 1 \<le> n - i + 19" and hi: "n - i + 19 < 20 * Suc 1"
    by simp_all
  from lo hi have "(n - i + 19) div 20 = 1"
    by (rule div_nat_eqI)
  with z show ?thesis by simp
qed

lemma loadFontBatch_eq:
  "loadFontBatch env batch ref = ref \<union> {f \<in> set batch. fontLoads env f}"
  unfolding loadFontBatch_def
  by (induction batch arbitrary: ref) (auto simp: loadFont_def)

lemma drop_split_batch:
  "set (drop i remaining) = set (take k (drop i remaining)) \<union> set (drop (i + k) remaining)"
  by (metis add.commute append_take_drop_id drop_drop set_append)

lemma loadRemaining_done:
  "\<not> i < length remaining \<Longrightarrow>
     loadRemaining env fl remaining i n st = st\<lparr> isLoading := False \<rparr>"
  by (simp add: loadRemaining.simps [of env fl remaining i n st])

lemma loadRemaining_step:
  "i < length remaining \<Longrightarrow> \<not> cancelled env n \<Longrightarrow> \<not> cancelled env (n + 1) \<Longrightarrow>
     loadRemaining env fl remaining i n st =
       loadRemaining env fl remaining (i + BATCH_SIZE) (n + 1)
         (st\<lparr> loadedFontsRef := loadFontBatch env (take BATCH_SIZE (drop i remaining)) (loadedFontsRef st),
              loadedFonts := loadFontBatch env (take BATCH_SIZE (drop i remaining)) (loadedFontsRef st),
              published := published st
                 @ [loadFontBatch env (take BATCH_SIZE (drop i remaining)) (loadedFontsRef st)],
              loadingProgress := fl + i + length (take BATCH_SIZE (drop i remaining)) \<rparr>)"
  by (subst loadRemaining.simps) (simp add: Let_def)

lemma loadRemaining_never_cancelled:
  assumes nc: "\<And>k. \<not> cancelled env k"
  shows "length (published (loadRemaining env fl remaining i n st))
           = length (published st) + (length remaining - i + 19) div 20
       \<and> loadedFontsRef (loadRemaining env fl remaining i n st)
           = loadedFontsRef st \<union> {f \<in> set (drop i remaining). fontLoads env f}
       \<and> loadedFonts (loadRemaining env fl remaining i n st)
           = (if i < length remaining
              then loadedFontsRef st \<union> {f \<in> set (drop i remaining). fontLoads env f}
              else loadedFonts st)
       \<and> \<not> isLoading (loadRemaining env fl remaining i n st)"
proof (induction "length remaining - i" arbitrary: i n st rule: less_induct)
  case less
  show ?case
  proof (cases "i < length remaining")
    case False
    then show ?thesis
      by (simp add: loadRemaining_done)
  next
    case True
    define batch where "batch = take BATCH_SIZE (drop i remaining)"
    define ref where "ref = loadFontBatch env batch (loadedFontsRef st)"
    define st2 where
      "st2 = st\<lparr> loadedFontsRef := ref, loadedFonts := ref,
                  published := published st @ [ref],
                  loadingProgress := fl + i + length batch \<rparr>"
    have step: "loadRemaining env fl remaining i n st
                  = loadRemaining env fl remaining (i + BATCH_SIZE) (n + 1) st2"
      using True nc by (simp add: loadRemaining_step st2_def ref_def batch_def)
    have smaller: "length remaining - (i + BATCH_SIZE) < length remaining - i"
      using True by (simp add: BATCH_SIZE_def)
    note IH = less.hyps [OF smaller, of "n + 1" st2]
    have ref_eq: "ref = loadedFontsRef st \<union> {f \<in> set batch. fontLoads env f}"
      by (simp add: ref_def loadFontBatch_eq)
    have split: "set (drop i remaining) = set batch \<union> set (drop (i + BATCH_SIZE) remaining)"
      unfolding batch_def by (rule drop_split_batch)
    have all: "loadedFontsRef st2 \<union> {f \<in> set (drop (i + BATCH_SIZE) remaining). fontLoads env f}
                 = loadedFontsRef st \<union> {f \<in> set (drop i remaining). fontLoads env f}"
      unfolding split by (auto simp: st2_def ref_eq)
    have cnt: "length (published st2) + (length remaining - (i + BATCH_SIZE) + 19) div 20
                 = length (published st) + (length remaining - i + 19) div 20"
      using batch_count_step [OF True] by (simp add: st2_def BATCH_SIZE_def)
    have last: "\<not> i + BATCH_SIZE < length remaining \<Longrightarrow>
                  loadedFonts st2 = loadedFontsRef st \<union> {f \<in> set (drop i remaining). fontLoads env f}"
    proof -
      assume "\<not> i + BATCH_SIZE < length remaining"
      then have "drop (i + BATCH_SIZE) remaining = []"
        by simp
      with all show ?thesis
        by (simp add: st2_def)
    qed
    show ?thesis
      unfolding step using IH all cnt last True
      by (simp split: if_splits)
  qed
qed

lemma length_remaining:
  assumes "distinct FIGLET" "distinct FEATURED" "set FEATURED \<subseteq> set FIGLET"
  shows "length (filter (\<lambda>f. f \<notin> set FEATURED) FIGLET)
           = length FIGLET - length FEATURED"
proof -
  have "length (filter (\<lambda>f. f \<in> set FEATURED) FIGLET) = card (set (filter (\<lambda>f. f \<in> set FEATURED) FIGLET))"
    using assms(1) by (metis distinct_card distinct_filter)
  also have "set (filter (\<lambda>f. f \<in> set FEATURED) FIGLET) = set FEATURED"
    using assms(3) by auto
  also have "card (set FEATURED) = length FEATURED"
    using assms(2) by (rule distinct_card)
  finally have "length (filter (\<lambda>f. f \<in> set FEATURED) FIGLET) = length FEATURED" .
  moreover have "length (filter (\<lambda>f. f \<in> set FEATURED) FIGLET)
                   + length (filter (\<lambda>f. \<not> f \<in> set FEATURED) FIGLET) = length FIGLET"
    by (rule sum_length_filter_compl)
  ultimately show ?thesis
    by simp
qed

lemma card_loaded:
  assumes "distinct FIGLET"
  shows "card {f \<in> set FIGLET. fontLoads env f}
           = length FIGLET - length (filter (\<lambda>f. \<not> fontLoads env f) FIGLET)"
proof -
  have "card {f \<in> set FIGLET. fontLoads env f} = card (set (filter (fontLoads env) FIGLET))"
    by simp
  also have "\<dots> = length (filter (fontLoads env) FIGLET)"
    using assms by (metis distinct_card distinct_filter)
  finally show ?thesis
    using sum_length_filter_compl [of "fontLoads env" FIGLET] by simp
qed

lemma loadAllFonts_never_cancelled:
  assumes nc: "\<And>k. \<not> cancelled env k"
  shows "length (published (loadAllFonts env FEATURED FIGLET initialLoaderState))
           = (length (filter (\<lambda>f. f \<notin> set FEATURED) FIGLET) + 19) div 20 + 1
       \<and> loadedFontsRef (loadAllFonts env FEATURED FIGLET initialLoaderState)
           = {f \<in> set FEATURED \<union> set FIGLET. fontLoads env f}
       \<and> loadedFonts (loadAllFonts env FEATURED FIGLET initialLoaderState)
           = {f \<in> set FEATURED \<union> set FIGLET. fontLoads env f}"
proof -
  define remaining where "remaining = filter (\<lambda>f. f \<notin> set FEATURED) FIGLET"
  define ref where "ref = loadFontBatch env FEATURED {}"
  define st2 where
    "st2 = \<lparr> loadedFontsRef = ref, loadedFonts = ref, loadingProgress = length FEATURED,
             isLoading = True, published = [ref] \<rparr>"
  have run: "loadAllFonts env FEATURED FIGLET initialLoaderState
               = loadRemaining env (length FEATURED) remaining 0 1 st2"
    using nc by (simp add: loadAllFonts_def initialLoaderState_def Let_def remaining_def
                   st2_def ref_def)
  note inv = loadRemaining_never_cancelled [OF nc, of "length FEATURED" remaining 0 1 st2]
  have ref_eq: "ref = {f \<in> set FEATURED. fontLoads env f}"
    by (simp add: ref_def loadFontBatch_eq)
  have rem: "set FEATURED \<union> set remaining = set FEATURED \<union> set FIGLET"
    by (auto simp: remaining_def)
  have all: "ref \<union> {f \<in> set remaining. fontLoads env f}
               = {f \<in> set FEATURED \<union> set FIGLET. fontLoads env f}"
    unfolding rem [symmetric] ref_eq by auto
  have none: "remaining = [] \<Longrightarrow> ref = {f \<in> set FEATURED \<union> set FIGLET. fontLoads env f}"
    using all by simp
  show ?thesis
    unfolding run remaining_def [symmetric]
    using inv all none by (simp add: st2_def split: if_splits)
qed

text \<open>
  Claim C10. When the load is never cancelled, the font names are distinct and the
  featured fonts are among them: with \<open>N\<close> fonts, of which \<open>featuredCount\<close> are featured,
  the loader publishes \<open>ceil((N - featuredCount) / 20) + 1\<close> snapshots of the loaded set
  (on natural numbers, \<open>(N - featuredCount + 19) div 20 + 1\<close>); the final set has \<open>N\<close>
  elements less one for every font whose load fails, and so \<open>N\<close> elements when none fails.
\<close>

theorem batch_loading_counts:
  assumes "\<forall>k. \<not> cancelled env k"
    and "distinct FIGLET_FONT_NAMES" and "distinct FEATURED_FONTS"
    and "set FEATURED_FONTS \<subseteq> set FIGLET_FONT_NAMES"
  shows "length (published (loadAllFonts env FEATURED_FONTS FIGLET_FONT_NAMES initialLoaderState))
           = (length FIGLET_FONT_NAMES - length FEATURED_FONTS + 19) div 20 + 1
       \<and> card (loadedFonts (loadAllFonts env FEATURED_FONTS FIGLET_FONT_NAMES initialLoaderState))
           = length FIGLET_FONT_NAMES
               - length (filter (\<lambda>f. \<not> fontLoads env f) FIGLET_FONT_NAMES)
       \<and> ((\<forall>f \<in> set FIGLET_FONT_NAMES. fontLoads env f) \<longrightarrow>
            card (loadedFonts (loadAllFonts env FEATURED_FONTS FIGLET_FONT_NAMES initialLoaderState))
              = length FIGLET_FONT_NAMES)"
proof -
  have nc: "\<And>k. \<not> cancelled env k"
    using assms(1) by simp
  have un: "set FEATURED_FONTS \<union> set FIGLET_FONT_NAMES = set FIGLET_FONT_NAMES"
    using assms(4) by auto
  have none: "\<forall>f \<in> set FIGLET_FONT_NAMES. fontLoads env f \<Longrightarrow>
                filter (\<lambda>f. \<not> fontLoads env f) FIGLET_FONT_NAMES = []"
    by (simp add: filter_empty_conv)
  show ?thesis
    using loadAllFonts_never_cancelled [OF nc, of FEATURED_FONTS FIGLET_FONT_NAMES]
          length_remaining [OF assms(2,3,4)] card_loaded [OF assms(2), of env] none
    by (auto simp: un)
qed

theorem batch_loading_counts_witness:
  "(\<forall>k. \<not> cancelled sampleEnv k) \<and> distinct sampleFiglet \<and> distinct sampleFeatured
   \<and> set sampleFeatured \<subseteq> set sampleFiglet
   \<and> length sampleFiglet = 25 \<and> length sampleFeatured = 2
   \<and> length (filter (\<lambda>f. \<not> fontLoads sampleEnv f) sampleFiglet) = 1
   \<and> length (published (loadAllFonts sampleEnv sampleFeatured sampleFiglet initialLoaderState)) = 3
   \<and> card (loadedFonts (loadAllFonts sampleEnv sampleFeatured sampleFiglet initialLoaderState)) = 24"
proof -
  have h1: "\<forall>k. \<not> cancelled sampleEnv k"
    by (simp add: sampleEnv_def)
  have h2: "distinct sampleFiglet"
    by (simp add: sampleFiglet_def js_def)
  have h3: "distinct sampleFeatured"
    by (simp add: sampleFeatured_def js_def)
  have h4: "set sampleFeatured \<subseteq> set sampleFiglet"
    by (simp add: sampleFeatured_def sampleFiglet_def js_def)
  have l: "length sampleFiglet = 25" "length sampleFeatured = 2"
    by (simp_all add: sampleFiglet_def sampleFeatured_def js_def)
  have f: "length (filter (\<lambda>f. \<not> fontLoads sampleEnv f) sampleFiglet) = 1"
    by (simp add: sampleFiglet_def fontLoads_def sampleEnv_def js_def)
  from batch_loading_counts [OF h1 h2 h3 h4] h1 h2 h3 h4 l f show ?thesis
    by simp
qed

end
